theory Spec2Isabelle
  imports
    Main
    "HOL-Library.Word"
    "HOL-Library.Multiset"
    "HOL-Library.Char_ord"
    "HOL-Library.List_Lexorder"
    "HOL-Library.Product_Lexorder"
begin

section \<open>The traffic table\<close>

text \<open>
  The dashboard script \<^verbatim>\<open>index.py\<close> keeps one pandas table \<^verbatim>\<open>df\<close> with the columns
  \<^verbatim>\<open>date\<close>, \<^verbatim>\<open>page\<close>, \<^verbatim>\<open>visits\<close>, \<^verbatim>\<open>device\<close> and \<^verbatim>\<open>location\<close>. A table is the list
  of its rows, in row order. A calendar day is the triple (year, month, day) under the
  lexicographic order, which is the chronological one. The \<^verbatim>\<open>visits\<close> column is built
  from a list of Python integers; for counts that fit, pandas stores it as 64-bit
  signed integers:
  a sum of the column wraps around, and comparisons read the bits as two's complement.
  Text columns compare as Python strings do, character by character.
\<close>

type_synonym date = "nat \<times> nat \<times> nat"
type_synonym int64 = "64 word"

record row =
  date :: date
  page :: string
  visits :: int64
  device :: string
  location :: string

type_synonym frame = "row list"

subsection \<open>Building the table (lines 7 to 17)\<close>

text \<open>
  \<^verbatim>\<open>pd.DataFrame(sample_data)\<close> receives a dictionary of five column lists. pandas
  raises \<^verbatim>\<open>ValueError\<close> ("All arrays must be of the same length") when the lists
  differ in length and otherwise makes one row per position.
\<close>

datatype error = AttributeError | ValueError

record columns =
  date_col :: "date list"
  page_col :: "string list"
  visits_col :: "int64 list"
  device_col :: "string list"
  location_col :: "string list"

fun rows_of :: "date list \<Rightarrow> string list \<Rightarrow> int64 list \<Rightarrow> string list \<Rightarrow> string list \<Rightarrow> frame" where
  "rows_of (d # ds) (p # ps) (v # vs) (e # es) (l # ls) =
     \<lparr>date = d, page = p, visits = v, device = e, location = l\<rparr> # rows_of ds ps vs es ls"
| "rows_of _ _ _ _ _ = []"

definition DataFrame :: "columns \<Rightarrow> error + frame" where
  "DataFrame c =
     (if length (page_col c) = length (date_col c)
         \<and> length (visits_col c) = length (date_col c)
         \<and> length (device_col c) = length (date_col c)
         \<and> length (location_col c) = length (date_col c)
      then Inr (rows_of (date_col c) (page_col c) (visits_col c) (device_col c) (location_col c))
      else Inl ValueError)"

text \<open>
  The dictionary of the script: thirty days from 2025-07-01, the list taken three
  times; three page, device and location names, each list taken thirty times. The
  entries of a dictionary display are evaluated in the order written, and so are the
  elements of a list comprehension; the first one that raises ends the evaluation.

  The element expression of the \<^verbatim>\<open>visits\<close> list is
  \<^verbatim>\<open>abs(int(100 + 50 * pd.Series(range(90)).sin()[i]))\<close>. A pandas \<^verbatim>\<open>Series\<close> has no
  attribute \<^verbatim>\<open>sin\<close>, so the lookup raises \<^verbatim>\<open>AttributeError\<close> for every \<^verbatim>\<open>i\<close>, before
  any arithmetic is done.
\<close>

definition date_range :: "date list" where
  "date_range = map (\<lambda>d. (2025, 7, d)) [1 ..< 31]"

definition visits_element :: "nat \<Rightarrow> error + int64" where
  "visits_element i = Inl AttributeError"

fun list_comprehension :: "(nat \<Rightarrow> error + 'a) \<Rightarrow> nat list \<Rightarrow> error + 'a list" where
  "list_comprehension f [] = Inr []"
| "list_comprehension f (i # rest) =
     (case f i of
        Inl e \<Rightarrow> Inl e
      | Inr v \<Rightarrow> (case list_comprehension f rest of Inl e \<Rightarrow> Inl e | Inr vs \<Rightarrow> Inr (v # vs)))"

definition sample_data :: "error + columns" where
  "sample_data =
     (let dates = concat (replicate 3 date_range);
          pages = concat (replicate 30 [''Home'', ''Products'', ''Contact''])
      in case list_comprehension visits_element [0 ..< 90] of
           Inl e \<Rightarrow> Inl e
         | Inr vs \<Rightarrow>
             Inr \<lparr>date_col = dates,
                  page_col = pages,
                  visits_col = vs,
                  device_col = concat (replicate 30 [''Desktop'', ''Mobile'', ''Tablet'']),
                  location_col = concat (replicate 30 [''India'', ''USA'', ''UK''])\<rparr>)"

text \<open>The module-level assignment \<^verbatim>\<open>df = pd.DataFrame(sample_data)\<close> of line 17.\<close>

definition module_df :: "error + frame" where
  "module_df = (case sample_data of Inl e \<Rightarrow> Inl e | Inr c \<Rightarrow> DataFrame c)"

text \<open>
  The callback reads the table through the global name \<^verbatim>\<open>df\<close>. Below, the table is an
  argument of the callback's model, so that its properties are stated for every table.
\<close>

section \<open>The callback \<^verbatim>\<open>update_dashboard\<close>\<close>

subsection \<open>Selection (lines 87 to 95)\<close>

text \<open>
  A dropdown with \<^verbatim>\<open>multi=True\<close> delivers \<^verbatim>\<open>None\<close> or a list of strings. Python's
  \<^verbatim>\<open>if selected:\<close> is false for \<^verbatim>\<open>None\<close> and for the empty list.
\<close>

type_synonym selection = "string list option"

fun truthy :: "selection \<Rightarrow> bool" where
  "truthy None = False"
| "truthy (Some xs) = (xs \<noteq> [])"

fun isin :: "string \<Rightarrow> selection \<Rightarrow> bool" where
  "isin x None = False"
| "isin x (Some xs) = (x \<in> set xs)"

definition filtered_df :: "frame \<Rightarrow> selection \<Rightarrow> selection \<Rightarrow> frame" where
  "filtered_df df selected_devices selected_locations =
     (let f0 = df;
          f1 = (if truthy selected_devices
                then filter (\<lambda>r. isin (device r) selected_devices) f0 else f0);
          f2 = (if truthy selected_locations
                then filter (\<lambda>r. isin (location r) selected_locations) f1 else f1)
      in f2)"

subsection \<open>Grouping and sorting (lines 100, 109 and 120)\<close>

text \<open>
  \<^verbatim>\<open>groupby(key)["visits"].sum().reset_index()\<close> has one row per distinct key of the
  table, the keys in ascending order (pandas sorts group keys by default), each with the
  64-bit sum of the \<^verbatim>\<open>visits\<close> of the rows that carry the key.
\<close>

definition groupby_sum :: "(row \<Rightarrow> 'k::linorder) \<Rightarrow> frame \<Rightarrow> ('k \<times> int64) list" where
  "groupby_sum key df =
     map (\<lambda>k. (k, sum_list (map visits (filter (\<lambda>r. key r = k) df))))
       (sort (remdups (map key df)))"

text \<open>
  \<^verbatim>\<open>sort_values(by="visits", ascending=False)\<close> is called without \<^verbatim>\<open>kind\<close>, so
  pandas sorts with its default, \<^verbatim>\<open>quicksort\<close>. Its \<^verbatim>\<open>nargsort\<close> reverses the rows,
  sorts them ascending by the signed value with numpy's quicksort and reverses the
  result. Quicksort is not stable: which of several rows with the same value comes
  first is not fixed by pandas and differs between numpy builds. That choice is a
  parameter of the model, a \<open>tie_order\<close>: given the list to be sorted, it ranks the
  rows, and rows with equal values come out in the order of their ranks (rows of equal
  value and equal rank keep their order in the list). Every rank function gives an
  ascending permutation of the list, and every ascending permutation of a list without
  repeated rows is given by some rank function (\<open>quicksort_by_complete\<close> below).
\<close>

type_synonym 'a tie_order = "'a list \<Rightarrow> 'a \<Rightarrow> nat"

definition quicksort_by :: "'a tie_order \<Rightarrow> ('a \<Rightarrow> int) \<Rightarrow> 'a list \<Rightarrow> 'a list" where
  "quicksort_by ties f xs = sort_key f (sort_key (ties xs) xs)"

definition sort_values_desc ::
  "('k \<times> int64) tie_order \<Rightarrow> ('k \<times> int64) list \<Rightarrow> ('k \<times> int64) list" where
  "sort_values_desc ties t = rev (quicksort_by ties (\<lambda>kv. sint (snd kv)) (rev t))"

text \<open>
  Two tie orders: \<open>keep_order\<close> ranks all rows alike, which makes the sort stable;
  \<open>reverse_order\<close> ranks each row by its position from the end of the list.
\<close>

definition keep_order :: "'a tie_order" where
  "keep_order xs x = 0"

definition index_in :: "'a list \<Rightarrow> 'a \<Rightarrow> nat" where
  "index_in ys x = length (takeWhile (\<lambda>y. y \<noteq> x) ys)"

definition reverse_order :: "'a tie_order" where
  "reverse_order xs x = index_in (rev xs) x"

definition traffic_by_date :: "frame \<Rightarrow> (date \<times> int64) list" where
  "traffic_by_date f = groupby_sum date f"

definition top_pages :: "(string \<times> int64) tie_order \<Rightarrow> frame \<Rightarrow> (string \<times> int64) list" where
  "top_pages ties f = sort_values_desc ties (groupby_sum page f)"

definition device_data :: "frame \<Rightarrow> (string \<times> int64) list" where
  "device_data f = groupby_sum device f"

text \<open>
  The callback returns the three figures; each figure is drawn from one of the three
  tables, which stand for it here. The table \<^verbatim>\<open>df\<close> it reads and the tie order of
  the sort it calls are arguments of the model.
\<close>

definition update_dashboard ::
  "(string \<times> int64) tie_order \<Rightarrow> frame \<Rightarrow> selection \<Rightarrow> selection
    \<Rightarrow> (date \<times> int64) list \<times> (string \<times> int64) list \<times> (string \<times> int64) list" where
  "update_dashboard ties df selected_devices selected_locations =
     (let f = filtered_df df selected_devices selected_locations
      in (traffic_by_date f, top_pages ties f, device_data f))"

text \<open>The three outputs, under the names the specification gives them.\<close>

definition trend ::
  "(string \<times> int64) tie_order \<Rightarrow> frame \<Rightarrow> selection \<Rightarrow> selection \<Rightarrow> (date \<times> int64) list" where
  "trend ties df sd sl = fst (update_dashboard ties df sd sl)"

definition topPages ::
  "(string \<times> int64) tie_order \<Rightarrow> frame \<Rightarrow> selection \<Rightarrow> selection \<Rightarrow> (string \<times> int64) list" where
  "topPages ties df sd sl = fst (snd (update_dashboard ties df sd sl))"

definition deviceShare ::
  "(string \<times> int64) tie_order \<Rightarrow> frame \<Rightarrow> selection \<Rightarrow> selection \<Rightarrow> (string \<times> int64) list" where
  "deviceShare ties df sd sl = snd (snd (update_dashboard ties df sd sl))"

subsection \<open>The selection as the specification words it\<close>

text \<open>
  The specification keeps a record when its device is in the allowed device set, or
  that set is empty or absent, and its location is in the allowed location set, or that
  set is empty or absent. These two definitions follow those words; \<open>filtered_df\<close>
  above follows the code.
\<close>

definition spec_allowed :: "selection \<Rightarrow> string \<Rightarrow> bool" where
  "spec_allowed sel x = (case sel of None \<Rightarrow> True | Some xs \<Rightarrow> xs = [] \<or> x \<in> set xs)"

definition spec_selection :: "frame \<Rightarrow> selection \<Rightarrow> selection \<Rightarrow> frame" where
  "spec_selection df sd sl =
     filter (\<lambda>r. spec_allowed sd (device r) \<and> spec_allowed sl (location r)) df"

text \<open>The total of one key over a table: the 64-bit sum of the rows that carry it.\<close>

definition total_of :: "(row \<Rightarrow> 'k) \<Rightarrow> frame \<Rightarrow> 'k \<Rightarrow> int64" where
  "total_of key df k = sum_list (map visits (filter (\<lambda>r. key r = k) df))"

text \<open>The three records of the specification's example.\<close>

definition example_df :: frame where
  "example_df =
     [\<lparr>date = (2025, 7, 1), page = ''Home'', visits = 10, device = ''Desktop'', location = ''USA''\<rparr>,
      \<lparr>date = (2025, 7, 1), page = ''Products'', visits = 5, device = ''Mobile'', location = ''USA''\<rparr>,
      \<lparr>date = (2025, 7, 2), page = ''Home'', visits = 20, device = ''Desktop'', location = ''UK''\<rparr>]"

text \<open>Two records with equal visit counts, the page that sorts later coming first.\<close>

definition tie_df :: frame where
  "tie_df =
     [\<lparr>date = (2025, 7, 1), page = ''Products'', visits = 5, device = ''Mobile'', location = ''USA''\<rparr>,
      \<lparr>date = (2025, 7, 1), page = ''Home'', visits = 5, device = ''Desktop'', location = ''USA''\<rparr>]"

text \<open>The same two records in the other order.\<close>

definition tie_df_swapped :: frame where
  "tie_df_swapped =
     [\<lparr>date = (2025, 7, 1), page = ''Home'', visits = 5, device = ''Desktop'', location = ''USA''\<rparr>,
      \<lparr>date = (2025, 7, 1), page = ''Products'', visits = 5, device = ''Mobile'', location = ''USA''\<rparr>]"

subsection \<open>The top pages as the specification words them\<close>

text \<open>
  The specification orders the pages by total visits, descending, and pages with equal
  totals by their first occurrence in the data. \<open>first_seen\<close> lists the distinct values
  of a list in the order of their first occurrence; \<open>spec_topPages\<close> sorts the per-page
  totals, listed in that order, with the stable sort.
\<close>

definition first_seen :: "'a list \<Rightarrow> 'a list" where
  "first_seen xs = rev (remdups (rev xs))"

definition spec_topPages :: "frame \<Rightarrow> selection \<Rightarrow> selection \<Rightarrow> (string \<times> int64) list" where
  "spec_topPages df sd sl =
     (let f = spec_selection df sd sl
      in sort_values_desc keep_order
           (map (\<lambda>p. (p, total_of page f p)) (first_seen (map page f))))"

section \<open>The callback on a store of tables\<close>

text \<open>
  A pandas table is an object, and a Python name holds a reference to it. The store is
  the list of the tables allocated so far, a reference is a position in it, and
  \<open>df_ref\<close> is what the module-level name \<^verbatim>\<open>df\<close> holds. \<^verbatim>\<open>df.copy()\<close> and the
  boolean selection \<^verbatim>\<open>filtered_df[mask]\<close> each build a new table; the callback only
  rebinds its local name \<^verbatim>\<open>filtered_df\<close> and calls no operation that writes into a
  table.
\<close>

record store =
  heap :: "frame list"
  df_ref :: nat

definition deref :: "store \<Rightarrow> nat \<Rightarrow> frame" where
  "deref s a = heap s ! a"

definition alloc :: "frame \<Rightarrow> store \<Rightarrow> nat \<times> store" where
  "alloc f s = (length (heap s), s\<lparr>heap := heap s @ [f]\<rparr>)"

type_synonym figures =
  "(date \<times> int64) list \<times> (string \<times> int64) list \<times> (string \<times> int64) list"

definition update_dashboard_store ::
  "(string \<times> int64) tie_order \<Rightarrow> selection \<Rightarrow> selection \<Rightarrow> store \<Rightarrow> figures \<times> store" where
  "update_dashboard_store ties selected_devices selected_locations s =
     (let (a0, s0) = alloc (deref s (df_ref s)) s;
          (a1, s1) = (if truthy selected_devices
                      then alloc (filter (\<lambda>r. isin (device r) selected_devices) (deref s0 a0)) s0
                      else (a0, s0));
          (a2, s2) = (if truthy selected_locations
                      then alloc (filter (\<lambda>r. isin (location r) selected_locations) (deref s1 a1)) s1
                      else (a1, s1));
          f = deref s2 a2
      in ((traffic_by_date f, top_pages ties f, device_data f), s2))"

text \<open>A sequence of filter changes, each one call of the callback on the store so far.\<close>

fun calls ::
  "(string \<times> int64) tie_order \<Rightarrow> (selection \<times> selection) list \<Rightarrow> store
    \<Rightarrow> figures list \<times> store" where
  "calls ties [] s = ([], s)"
| "calls ties ((sd, sl) # cs) s =
     (let (out, s') = update_dashboard_store ties sd sl s;
          (outs, s'') = calls ties cs s'
      in (out # outs, s''))"

definition example_store :: store where
  "example_store = \<lparr>heap = [example_df], df_ref = 0\<rparr>"

section \<open>Properties of grouping and sorting\<close>

lemma filtered_df_spec: "filtered_df df sd sl = spec_selection df sd sl"
proof -
  have dev: "(if truthy sd then filter (\<lambda>r. isin (device r) sd) df else df)
               = filter (\<lambda>r. spec_allowed sd (device r)) df"
    by (cases sd) (auto simp: spec_allowed_def intro: filter_cong)
  have loc: "(if truthy sl then filter (\<lambda>r. isin (location r) sl) f else f)
               = filter (\<lambda>r. spec_allowed sl (location r)) f" for f
    by (cases sl) (auto simp: spec_allowed_def intro: filter_cong)
  show ?thesis
    unfolding filtered_df_def Let_def dev loc spec_selection_def
    by (simp add: conj_commute)
qed

lemma groupby_sum_keys: "map fst (groupby_sum key df) = sort (remdups (map key df))"
  by (simp add: groupby_sum_def comp_def)

lemma groupby_sum_total_of:
  "groupby_sum key df = map (\<lambda>k. (k, total_of key df k)) (sort (remdups (map key df)))"
  by (simp add: groupby_sum_def total_of_def)

lemma groupby_sum_strictly_sorted: "sorted_wrt (<) (map fst (groupby_sum key df))"
  by (simp add: groupby_sum_keys strict_sorted_iff)

lemma groupby_sum_distinct: "distinct (map fst (groupby_sum key df))"
  by (simp add: groupby_sum_keys)

lemma groupby_sum_key_set: "set (map fst (groupby_sum key df)) = key ` set df"
  by (simp add: groupby_sum_keys)

lemma groupby_sum_Nil: "groupby_sum key [] = []"
  by (simp add: groupby_sum_def)

lemma sum_list_no_key:
  fixes v :: "'b::comm_monoid_add"
  shows "a \<notin> set ks \<Longrightarrow> (\<Sum>k\<leftarrow>ks. if a = k then v else 0) = 0"
  by (induction ks) auto

lemma sum_list_one_key:
  fixes v :: "'b::comm_monoid_add"
  assumes "distinct ks" and "a \<in> set ks"
  shows "(\<Sum>k\<leftarrow>ks. if a = k then v else 0) = v"
  using assms by (induction ks) (auto simp: sum_list_no_key)

lemma sum_list_by_key:
  fixes g :: "row \<Rightarrow> 'b::comm_monoid_add"
  assumes "distinct ks" and "key ` set df \<subseteq> set ks"
  shows "(\<Sum>k\<leftarrow>ks. sum_list (map g (filter (\<lambda>r. key r = k) df))) = sum_list (map g df)"
  using assms(2)
proof (induction df)
  case Nil
  show ?case by simp
next
  case (Cons r rs)
  have split: "sum_list (map g (filter (\<lambda>r. key r = k) (r # rs)))
                = (if key r = k then g r else 0)
                  + sum_list (map g (filter (\<lambda>r. key r = k) rs))" for k
    by simp
  have "key r \<in> set ks" using Cons.prems by simp
  then have one: "(\<Sum>k\<leftarrow>ks. if key r = k then g r else 0) = g r"
    using assms(1) by (rule sum_list_one_key [rotated])
  have rest: "(\<Sum>k\<leftarrow>ks. sum_list (map g (filter (\<lambda>r. key r = k) rs)))
                = sum_list (map g rs)"
    using Cons by simp
  show ?case
    unfolding split sum_list_addf one rest by simp
qed

lemma groupby_sum_conserves:
  "sum_list (map snd (groupby_sum key df)) = sum_list (map visits df)"
proof -
  have "sum_list (map snd (groupby_sum key df))
          = (\<Sum>k\<leftarrow>sort (remdups (map key df)). sum_list (map visits (filter (\<lambda>r. key r = k) df)))"
    by (simp add: groupby_sum_def comp_def)
  also have "\<dots> = sum_list (map visits df)"
    by (rule sum_list_by_key) simp_all
  finally show ?thesis .
qed

lemma mset_sort_values_desc: "mset (sort_values_desc ties t) = mset t"
  by (simp add: sort_values_desc_def quicksort_by_def)

lemma sort_values_desc_conserves:
  "sum_list (map snd (sort_values_desc ties t)) = sum_list (map snd t)"
proof -
  have "mset (map snd (sort_values_desc ties t)) = mset (map snd t)"
    by (simp add: mset_sort_values_desc)
  then show ?thesis
    by (metis sum_mset_sum_list)
qed

lemma set_sort_values_desc: "set (sort_values_desc ties t) = set t"
  by (simp add: sort_values_desc_def quicksort_by_def)

lemma distinct_keys_sort_values_desc:
  "distinct (map fst (sort_values_desc ties t)) = distinct (map fst t)"
  by (simp add: sort_values_desc_def quicksort_by_def distinct_map rev_map [symmetric])

lemma update_dashboard_outputs:
  "trend ties df sd sl = groupby_sum date (spec_selection df sd sl)"
  "topPages ties df sd sl = sort_values_desc ties (groupby_sum page (spec_selection df sd sl))"
  "deviceShare ties df sd sl = groupby_sum device (spec_selection df sd sl)"
  by (simp_all add: trend_def topPages_def deviceShare_def update_dashboard_def Let_def
      traffic_by_date_def top_pages_def device_data_def filtered_df_spec)

subsection \<open>Sums without overflow\<close>

lemma sint_add_in_range:
  fixes a b :: int64
  assumes "0 \<le> sint a" and "0 \<le> sint b" and "sint a + sint b < 2 ^ 63"
  shows "sint (a + b) = sint a + sint b"
proof -
  have "sint (a + b) = signed_take_bit 63 (sint a + sint b)"
    by (simp add: sint_word_ariths)
  also have "\<dots> = sint a + sint b"
    using assms by (intro signed_take_bit_int_eq_self) simp_all
  finally show ?thesis .
qed

lemma sint_sum_list_in_range:
  fixes vs :: "int64 list"
  assumes "\<forall>v\<in>set vs. 0 \<le> sint v" and "(\<Sum>v\<leftarrow>vs. sint v) < 2 ^ 63"
  shows "sint (sum_list vs) = (\<Sum>v\<leftarrow>vs. sint v)"
  using assms
proof (induction vs)
  case Nil
  show ?case by simp
next
  case (Cons v vs)
  have nonneg: "0 \<le> (\<Sum>v\<leftarrow>vs. sint v)"
    using Cons.prems(1) by (intro sum_list_nonneg) auto
  have v: "0 \<le> sint v" using Cons.prems(1) by simp
  have "(\<Sum>v\<leftarrow>vs. sint v) < 2 ^ 63"
    using Cons.prems(2) v by simp
  then have ih: "sint (sum_list vs) = (\<Sum>v\<leftarrow>vs. sint v)"
    using Cons by simp
  have "sint (v + sum_list vs) = sint v + sint (sum_list vs)"
    using v nonneg Cons.prems(2) by (intro sint_add_in_range) (simp_all add: ih)
  then show ?case by (simp add: ih)
qed

lemma sum_list_filter_le:
  fixes g :: "'a \<Rightarrow> int"
  assumes "\<forall>x\<in>set xs. 0 \<le> g x"
  shows "(\<Sum>x\<leftarrow>filter P xs. g x) \<le> (\<Sum>x\<leftarrow>xs. g x)"
  using assms by (induction xs) (auto intro: add_increasing)

lemma groupby_sum_sint:
  assumes nonneg: "\<forall>r\<in>set df. 0 \<le> sint (visits r)"
    and bound: "(\<Sum>r\<leftarrow>df. sint (visits r)) < 2 ^ 63"
  shows "(\<Sum>kv\<leftarrow>groupby_sum key df. sint (snd kv)) = (\<Sum>r\<leftarrow>df. sint (visits r))"
proof -
  have group: "sint (sum_list (map visits (filter (\<lambda>r. key r = k) df)))
                 = (\<Sum>r\<leftarrow>filter (\<lambda>r. key r = k) df. sint (visits r))" for k
  proof -
    have "(\<Sum>r\<leftarrow>filter (\<lambda>r. key r = k) df. sint (visits r)) \<le> (\<Sum>r\<leftarrow>df. sint (visits r))"
      using nonneg by (rule sum_list_filter_le)
    then have "(\<Sum>v\<leftarrow>map visits (filter (\<lambda>r. key r = k) df). sint v) < 2 ^ 63"
      using bound by (simp add: comp_def)
    moreover have "\<forall>v\<in>set (map visits (filter (\<lambda>r. key r = k) df)). 0 \<le> sint v"
      using nonneg by simp
    ultimately have "sint (sum_list (map visits (filter (\<lambda>r. key r = k) df)))
                       = (\<Sum>v\<leftarrow>map visits (filter (\<lambda>r. key r = k) df). sint v)"
      by (rule sint_sum_list_in_range [rotated])
    then show ?thesis by (simp add: comp_def)
  qed
  have "(\<Sum>kv\<leftarrow>groupby_sum key df. sint (snd kv))
          = (\<Sum>k\<leftarrow>sort (remdups (map key df)).
               (\<Sum>r\<leftarrow>filter (\<lambda>r. key r = k) df. sint (visits r)))"
    by (simp add: groupby_sum_def comp_def group)
  also have "\<dots> = (\<Sum>r\<leftarrow>df. sint (visits r))"
    by (rule sum_list_by_key) simp_all
  finally show ?thesis .
qed

lemma sort_values_desc_sint:
  "(\<Sum>kv\<leftarrow>sort_values_desc ties t. sint (snd kv)) = (\<Sum>kv\<leftarrow>t. sint (snd kv))"
proof -
  have "mset (map (\<lambda>kv. sint (snd kv)) (sort_values_desc ties t)) = mset (map (\<lambda>kv. sint (snd kv)) t)"
    by (simp add: mset_sort_values_desc)
  then show ?thesis
    by (metis sum_mset_sum_list)
qed

subsection \<open>The descending sort\<close>

lemma sort_values_desc_descending:
  "sorted_wrt (\<lambda>a b. sint (snd b) \<le> sint (snd a)) (sort_values_desc ties t)"
proof -
  let ?f = "\<lambda>kv :: 'a \<times> int64. sint (snd kv)"
  have "sorted (map ?f (quicksort_by ties ?f (rev t)))"
    by (simp add: quicksort_by_def)
  then have "sorted_wrt (\<lambda>a b. ?f a \<le> ?f b) (quicksort_by ties ?f (rev t))"
    by (simp add: sorted_map)
  then show ?thesis
    by (simp add: sort_values_desc_def sorted_wrt_rev)
qed

lemma sort_values_desc_single: "sort_values_desc ties [kv] = [kv]"
  by (simp add: sort_values_desc_def quicksort_by_def)

text \<open>With \<open>keep_order\<close> the sort is the stable one.\<close>

lemma insort_key_constant: "insort_key (\<lambda>x. c) a xs = a # xs"
  by (cases xs) simp_all

lemma sort_key_constant: "sort_key (\<lambda>x. c) xs = xs"
  by (induction xs) (simp_all add: insort_key_constant)

lemma keep_order_constant: "keep_order xs = (\<lambda>x. 0)"
  by (rule ext) (simp add: keep_order_def)

lemma sort_values_desc_keep_order:
  "sort_values_desc keep_order t = rev (sort_key (\<lambda>kv. sint (snd kv)) (rev t))"
  by (simp add: sort_values_desc_def quicksort_by_def keep_order_constant sort_key_constant)

text \<open>
  The tie order reaches every outcome an unstable sort can have: a list without
  repeated rows that is a rearrangement of the input and ascending in the key is what
  \<open>quicksort_by\<close> returns when the rows are ranked by their place in that list.
\<close>

lemma index_in_Cons:
  "index_in (y # ys) x = (if x = y then 0 else Suc (index_in ys x))"
  by (auto simp: index_in_def)

lemma map_index_in: "distinct ys \<Longrightarrow> map (index_in ys) ys = [0 ..< length ys]"
proof (induction ys)
  case Nil
  show ?case by simp
next
  case (Cons y ys)
  have "map (index_in (y # ys)) ys = map (\<lambda>x. Suc (index_in ys x)) ys"
    using Cons.prems by (intro map_cong) (auto simp: index_in_Cons)
  also have "\<dots> = map Suc (map (index_in ys) ys)"
    by simp
  also have "\<dots> = map Suc [0 ..< length ys]"
    using Cons by simp
  finally have tail: "map (index_in (y # ys)) ys = map Suc [0 ..< length ys]" .
  have "map (index_in (y # ys)) (y # ys) = 0 # map (index_in (y # ys)) ys"
    by (simp add: index_in_Cons)
  also have "\<dots> = 0 # map Suc [0 ..< length ys]"
    by (simp only: tail)
  also have "\<dots> = [0 ..< length (y # ys)]"
    by (simp add: map_Suc_upt upt_conv_Cons del: upt_Suc)
  finally show ?case .
qed

lemma inj_on_index_in: "inj_on (index_in ys) (set ys)"
proof (induction ys)
  case Nil
  show ?case by simp
next
  case (Cons y ys)
  show ?case
  proof (rule inj_onI)
    fix a b
    assume a: "a \<in> set (y # ys)" and b: "b \<in> set (y # ys)"
      and eq: "index_in (y # ys) a = index_in (y # ys) b"
    show "a = b"
    proof (cases "a = y \<or> b = y")
      case True
      with eq show ?thesis by (auto simp: index_in_Cons split: if_splits)
    next
      case False
      with a b eq have "a \<in> set ys" "b \<in> set ys" "index_in ys a = index_in ys b"
        by (auto simp: index_in_Cons)
      with Cons show ?thesis by (auto dest: inj_onD)
    qed
  qed
qed

lemma sort_key_index_in:
  assumes "distinct ys" and "mset xs = mset ys"
  shows "sort_key (index_in ys) xs = ys"
proof (rule map_sorted_distinct_set_unique [where f = "index_in ys"])
  have set_eq: "set xs = set ys"
    using assms(2) by (rule mset_eq_setD)
  have dxs: "distinct xs"
    using assms mset_eq_imp_distinct_iff by blast
  show "inj_on (index_in ys) (set (sort_key (index_in ys) xs) \<union> set ys)"
    by (simp add: set_eq inj_on_index_in)
  show "sorted (map (index_in ys) (sort_key (index_in ys) xs))"
    by simp
  show "distinct (map (index_in ys) (sort_key (index_in ys) xs))"
    using dxs inj_on_index_in [of ys] by (simp add: distinct_map set_eq)
  show "sorted (map (index_in ys) ys)"
    by (simp add: map_index_in assms(1))
  show "distinct (map (index_in ys) ys)"
    by (simp add: map_index_in assms(1))
  show "set (sort_key (index_in ys) xs) = set ys"
    by (simp add: set_eq)
qed

lemma quicksort_by_complete:
  assumes "distinct ys" and "mset xs = mset ys" and "sorted (map f ys)"
  shows "quicksort_by (\<lambda>_. index_in ys) f xs = ys"
  using assms by (simp add: quicksort_by_def sort_key_index_in sort_key_id_if_sorted)

lemma sort_values_desc_complete:
  assumes "distinct out" and "mset t = mset out"
    and "sorted_wrt (\<lambda>a b. sint (snd b) \<le> sint (snd a)) out"
  shows "sort_values_desc (\<lambda>_. index_in (rev out)) t = out"
proof -
  let ?f = "\<lambda>kv :: 'a \<times> int64. sint (snd kv)"
  have "sorted_wrt (\<lambda>a b. ?f a \<le> ?f b) (rev out)"
    using assms(3) by (simp add: sorted_wrt_rev)
  then have "sorted (map ?f (rev out))"
    by (simp add: sorted_map)
  moreover have "distinct (rev out)" "mset (rev t) = mset (rev out)"
    using assms(1,2) by simp_all
  ultimately have "quicksort_by (\<lambda>_. index_in (rev out)) ?f (rev t) = rev out"
    by (intro quicksort_by_complete)
  then show ?thesis
    by (simp add: sort_values_desc_def)
qed

text \<open>
  For the table grouped by page, whose rows are distinct, the tie orders give exactly
  the rearrangements that are descending in the totals.
\<close>

lemma top_pages_reaches_every_descending_order:
  assumes "mset out = mset (groupby_sum page f)"
    and "sorted_wrt (\<lambda>a b. sint (snd b) \<le> sint (snd a)) out"
  shows "\<exists>ties. top_pages ties f = out"
proof -
  have "distinct (map fst (groupby_sum page f))"
    by (rule groupby_sum_distinct)
  then have "distinct (groupby_sum page f)"
    by (simp add: distinct_map)
  then have "distinct out"
    using assms(1) mset_eq_imp_distinct_iff by blast
  then have "sort_values_desc (\<lambda>_. index_in (rev out)) (groupby_sum page f) = out"
    using assms by (intro sort_values_desc_complete) simp_all
  then show ?thesis
    unfolding top_pages_def by blast
qed

text \<open>
  Four grouped rows with two ties: the stable order and the reversed one. Both are
  descending in the totals.
\<close>

lemma sort_values_desc_two_orders:
  "sort_values_desc keep_order
     [(''About'', 1), (''Blog'', 1), (''Contact'', 2), (''Home'', 2)]
     = [(''Contact'', 2), (''Home'', 2), (''About'', 1), (''Blog'', 1)]"
  "sort_values_desc reverse_order
     [(''About'', 1), (''Blog'', 1), (''Contact'', 2), (''Home'', 2)]
     = [(''Home'', 2), (''Contact'', 2), (''Blog'', 1), (''About'', 1)]"
  by (simp_all add: sort_values_desc_def quicksort_by_def keep_order_def reverse_order_def
      index_in_def)

text \<open>
  The two tables \<open>tie_df\<close> and \<open>tie_df_swapped\<close> group to the same table, so the sort
  receives the same input for both and, whatever its tie order, returns the same top
  pages for both; the order of first occurrence differs between them.
\<close>

lemma tie_tables_same_top_pages:
  "topPages ties tie_df None None = topPages ties tie_df_swapped None None"
  by (simp add: topPages_def update_dashboard_def filtered_df_def top_pages_def groupby_sum_def
      tie_df_def tie_df_swapped_def Let_def)

lemma tie_tables_spec_differs:
  "spec_topPages tie_df None None = [(''Products'', 5), (''Home'', 5)]"
  "spec_topPages tie_df_swapped None None = [(''Home'', 5), (''Products'', 5)]"
  by (simp_all add: spec_topPages_def tie_df_def tie_df_swapped_def spec_selection_def
      spec_allowed_def first_seen_def total_of_def Let_def sort_values_desc_keep_order)

subsection \<open>The module-level table\<close>

text \<open>
  Evaluating lines 7 to 17 as written ends at line 11 with \<^verbatim>\<open>AttributeError\<close>: the
  first element of the \<^verbatim>\<open>visits\<close> list raises, so neither the dictionary nor the
  table is built.
\<close>

lemma sample_data_raises: "sample_data = Inl AttributeError"
  by (simp add: sample_data_def visits_element_def upt_conv_Cons)

lemma module_df_raises: "module_df = Inl AttributeError"
  by (simp add: module_df_def sample_data_raises)

subsection \<open>The store\<close>

lemma deref_alloc_new: "deref (snd (alloc f s)) (fst (alloc f s)) = f"
  by (simp add: alloc_def deref_def)

lemma deref_alloc_old: "a < length (heap s) \<Longrightarrow> deref (snd (alloc f s)) a = deref s a"
  by (simp add: alloc_def deref_def nth_append)

lemma alloc_frame:
  "df_ref (snd (alloc f s)) = df_ref s"
  "length (heap s) \<le> length (heap (snd (alloc f s)))"
  "take (length (heap s)) (heap (snd (alloc f s))) = heap s"
  by (simp_all add: alloc_def)

lemma update_dashboard_store_result:
  "fst (update_dashboard_store ties sd sl s) = update_dashboard ties (deref s (df_ref s)) sd sl"
  by (cases "truthy sd"; cases "truthy sl")
     (simp_all add: update_dashboard_store_def update_dashboard_def filtered_df_def Let_def
      deref_alloc_new split_beta)

lemma update_dashboard_store_frame:
  "df_ref (snd (update_dashboard_store ties sd sl s)) = df_ref s
   \<and> take (length (heap s)) (heap (snd (update_dashboard_store ties sd sl s))) = heap s"
  by (cases "truthy sd"; cases "truthy sl")
     (simp_all add: update_dashboard_store_def Let_def alloc_def split_beta)

lemma take_prefix_nth:
  assumes "take n ys = xs" and "a < length xs"
  shows "ys ! a = xs ! a"
proof -
  have "a < n" using assms by auto
  then have "take n ys ! a = ys ! a" by (rule nth_take)
  with assms(1) show ?thesis by simp
qed

lemma update_dashboard_store_keeps:
  assumes "a < length (heap s)"
  shows "a < length (heap (snd (update_dashboard_store ties sd sl s)))
       \<and> deref (snd (update_dashboard_store ties sd sl s)) a = deref s a"
proof -
  let ?s' = "snd (update_dashboard_store ties sd sl s)"
  have t: "take (length (heap s)) (heap ?s') = heap s"
    using update_dashboard_store_frame by simp
  have "length (take (length (heap s)) (heap ?s')) = length (heap s)"
    by (simp only: t)
  then have "length (heap s) \<le> length (heap ?s')"
    by simp
  moreover have "heap ?s' ! a = heap s ! a"
    using t assms by (rule take_prefix_nth)
  ultimately show ?thesis using assms by (simp add: deref_def)
qed

section \<open>The claims\<close>

text \<open>
  C1. Conservation of counts: for every table and every pair of selections, the visit
  totals of the trend, of the top pages and of the device share each add up to the sum
  of \<open>visits\<close> over the records that survive the filter. This holds of the 64-bit sums
  pandas computes, and, when the surviving counts are non-negative and their sum stays
  below \<open>2 ^ 63\<close>, of the sums read as integers.
\<close>

theorem conservation_of_counts:
  "sum_list (map snd (trend ties df sd sl)) = sum_list (map visits (spec_selection df sd sl))
   \<and> sum_list (map snd (topPages ties df sd sl)) = sum_list (map visits (spec_selection df sd sl))
   \<and> sum_list (map snd (deviceShare ties df sd sl)) = sum_list (map visits (spec_selection df sd sl))
   \<and> ((\<forall>r\<in>set (spec_selection df sd sl). 0 \<le> sint (visits r))
        \<and> (\<Sum>r\<leftarrow>spec_selection df sd sl. sint (visits r)) < 2 ^ 63
      \<longrightarrow> (\<Sum>kv\<leftarrow>trend ties df sd sl. sint (snd kv)) = (\<Sum>r\<leftarrow>spec_selection df sd sl. sint (visits r))
        \<and> (\<Sum>kv\<leftarrow>topPages ties df sd sl. sint (snd kv)) = (\<Sum>r\<leftarrow>spec_selection df sd sl. sint (visits r))
        \<and> (\<Sum>kv\<leftarrow>deviceShare ties df sd sl. sint (snd kv)) = (\<Sum>r\<leftarrow>spec_selection df sd sl. sint (visits r)))"
  by (simp add: update_dashboard_outputs groupby_sum_conserves sort_values_desc_conserves
      groupby_sum_sint sort_values_desc_sint)

theorem conservation_of_counts_witness:
  "sum_list (map snd (trend keep_order example_df (Some [''Desktop'']) None)) = 30
   \<and> sum_list (map snd (topPages keep_order example_df (Some [''Desktop'']) None)) = 30
   \<and> sum_list (map snd (deviceShare keep_order example_df (Some [''Desktop'']) None)) = 30
   \<and> (\<Sum>kv\<leftarrow>trend keep_order example_df (Some [''Desktop'']) None. sint (snd kv)) = 30
   \<and> (\<Sum>kv\<leftarrow>topPages keep_order example_df (Some [''Desktop'']) None. sint (snd kv)) = 30
   \<and> (\<Sum>kv\<leftarrow>deviceShare keep_order example_df (Some [''Desktop'']) None. sint (snd kv)) = 30"
proof -
  have sel: "spec_selection example_df (Some [''Desktop'']) None
               = [\<lparr>date = (2025, 7, 1), page = ''Home'', visits = 10, device = ''Desktop'', location = ''USA''\<rparr>,
                  \<lparr>date = (2025, 7, 2), page = ''Home'', visits = 20, device = ''Desktop'', location = ''UK''\<rparr>]"
    by (simp add: spec_selection_def spec_allowed_def example_df_def)
  show ?thesis
    using conservation_of_counts [where ties = keep_order and df = example_df
        and sd = "Some [''Desktop'']" and sl = None]
    by (simp add: sel)
qed

text \<open>
  C2, as the specification states it: the top pages are in descending order of total
  visits, pages with equal totals in the order of their first occurrence in the data.
  The sort runs on the grouped table, whose pages are in ascending order, and never
  sees the order of the data. On \<open>tie_df\<close>, where Products occurs before Home and
  both total 5, a sort that keeps ties in the order of the grouped table puts Home
  first; on \<open>tie_df_swapped\<close>, where Home occurs first, a sort that reverses them
  puts Products first. (By \<open>tie_tables_same_top_pages\<close> and
  \<open>tie_tables_spec_differs\<close> every tie order breaks the statement on one of the two
  tables.)
\<close>

theorem topPages_ties_counterexample:
  "topPages keep_order tie_df None None = [(''Home'', 5), (''Products'', 5)]
   \<and> spec_topPages tie_df None None = [(''Products'', 5), (''Home'', 5)]
   \<and> topPages keep_order tie_df None None \<noteq> spec_topPages tie_df None None
   \<and> topPages reverse_order tie_df_swapped None None = [(''Products'', 5), (''Home'', 5)]
   \<and> spec_topPages tie_df_swapped None None = [(''Home'', 5), (''Products'', 5)]
   \<and> topPages reverse_order tie_df_swapped None None \<noteq> spec_topPages tie_df_swapped None None"
  by (simp add: topPages_def spec_topPages_def update_dashboard_def tie_df_def tie_df_swapped_def
      filtered_df_def top_pages_def groupby_sum_def sort_values_desc_def quicksort_by_def
      keep_order_def reverse_order_def index_in_def spec_selection_def spec_allowed_def
      first_seen_def total_of_def Let_def)

text \<open>
  C2, amended: for every table, every pair of selections and every tie order of the
  sort, the top pages are in descending order of total visits (read as signed 64-bit
  values) and are a rearrangement of the table grouped by page. Nothing is said about
  the order of pages with equal totals.
\<close>

theorem topPages_sorted_descending:
  "sorted_wrt (\<lambda>a b. sint (snd b) \<le> sint (snd a)) (topPages ties df sd sl)
   \<and> mset (topPages ties df sd sl) = mset (groupby_sum page (filtered_df df sd sl))"
  by (simp add: update_dashboard_outputs sort_values_desc_descending mset_sort_values_desc
      filtered_df_spec)

text \<open>
  C3. The trend is in strictly ascending order of date and has exactly one entry for each
  date that occurs among the surviving records, carrying the total of that date: it is
  the list of those dates in ascending order, each paired with its total.
\<close>

theorem trend_sorted_one_entry_per_date:
  "sorted_wrt (<) (map fst (trend ties df sd sl))
   \<and> distinct (map fst (trend ties df sd sl))
   \<and> set (map fst (trend ties df sd sl)) = date ` set (spec_selection df sd sl)
   \<and> trend ties df sd sl =
       map (\<lambda>d. (d, total_of date (spec_selection df sd sl) d))
         (sorted_list_of_set (date ` set (spec_selection df sd sl)))"
proof -
  have "sorted_list_of_set (date ` set (spec_selection df sd sl))
          = sort (remdups (map date (spec_selection df sd sl)))"
    by (simp add: sorted_list_of_set_sort_remdups [symmetric])
  then show ?thesis
    by (simp only: update_dashboard_outputs groupby_sum_strictly_sorted groupby_sum_distinct
        groupby_sum_key_set groupby_sum_total_of [symmetric] simp_thms)
qed

text \<open>
  C4. With no device restriction and no location restriction, each of them absent
  (\<open>None\<close>) or the empty list, the callback returns the three tables computed from the
  whole table.
\<close>

theorem empty_filter_whole_dataset:
  assumes "sd = None \<or> sd = Some []" and "sl = None \<or> sl = Some []"
  shows "update_dashboard ties df sd sl = (traffic_by_date df, top_pages ties df, device_data df)"
  using assms by (auto simp: update_dashboard_def filtered_df_def)

theorem empty_filter_whole_dataset_witness:
  "update_dashboard keep_order example_df (Some []) None
     = (traffic_by_date example_df, top_pages keep_order example_df, device_data example_df)
   \<and> update_dashboard keep_order example_df (Some []) None
     = ([((2025, 7, 1), 15), ((2025, 7, 2), 20)],
        [(''Home'', 30), (''Products'', 5)],
        [(''Desktop'', 30), (''Mobile'', 5)])"
  using empty_filter_whole_dataset [where ties = keep_order and df = example_df
      and sd = "Some []" and sl = None]
  by (simp add: example_df_def traffic_by_date_def
      top_pages_def device_data_def groupby_sum_def sort_values_desc_def quicksort_by_def)

text \<open>
  C5. When no record of the table is allowed by the two selections, for example when
  the only selected device does not occur in the table, the callback returns three
  empty tables. It has no failing branch: its result is always a triple of tables.
\<close>

theorem no_match_three_empty:
  assumes "\<forall>r\<in>set df. \<not> (spec_allowed sd (device r) \<and> spec_allowed sl (location r))"
  shows "update_dashboard ties df sd sl = ([], [], [])"
proof -
  have "spec_selection df sd sl = []"
    using assms by (simp add: spec_selection_def filter_empty_conv)
  then show ?thesis
    by (simp add: update_dashboard_def filtered_df_spec traffic_by_date_def top_pages_def
        device_data_def groupby_sum_Nil sort_values_desc_def quicksort_by_def)
qed

theorem no_match_three_empty_witness:
  "update_dashboard keep_order example_df (Some [''Watch'']) None = ([], [], [])"
  by (rule no_match_three_empty) (simp add: example_df_def spec_allowed_def)

text \<open>
  C6. The specification's example: three records, filtered to the device Desktop. The
  top pages have a single row, so the result is the same under every tie order.
\<close>

theorem example_desktop:
  "update_dashboard ties example_df (Some [''Desktop'']) None
     = ([((2025, 7, 1), 10), ((2025, 7, 2), 20)], [(''Home'', 30)], [(''Desktop'', 30)])"
  by (simp add: update_dashboard_def example_df_def filtered_df_def traffic_by_date_def
      top_pages_def device_data_def groupby_sum_def sort_values_desc_def quicksort_by_def)

text \<open>
  C8. In a store where \<^verbatim>\<open>df\<close> refers to an allocated table, any sequence of calls of
  the callback, with any selections in any order, leaves the name \<^verbatim>\<open>df\<close> bound to the
  same reference and the table behind it unchanged; every call in the sequence returns
  what a single call on the original table returns.
\<close>

theorem base_dataset_unchanged:
  assumes "df_ref s < length (heap s)"
  shows "df_ref (snd (calls ties cs s)) = df_ref s
       \<and> deref (snd (calls ties cs s)) (df_ref s) = deref s (df_ref s)
       \<and> fst (calls ties cs s) = map (\<lambda>(sd, sl). update_dashboard ties (deref s (df_ref s)) sd sl) cs"
  using assms
proof (induction cs arbitrary: s)
  case Nil
  show ?case by simp
next
  case (Cons c cs)
  obtain sd sl where c: "c = (sd, sl)" by (cases c)
  let ?s' = "snd (update_dashboard_store ties sd sl s)"
  have ref: "df_ref ?s' = df_ref s"
    using update_dashboard_store_frame by simp
  have keep: "df_ref s < length (heap ?s')" "deref ?s' (df_ref s) = deref s (df_ref s)"
    using update_dashboard_store_keeps [OF Cons.prems] by simp_all
  have ih: "df_ref (snd (calls ties cs ?s')) = df_ref ?s'
       \<and> deref (snd (calls ties cs ?s')) (df_ref ?s') = deref ?s' (df_ref ?s')
       \<and> fst (calls ties cs ?s') = map (\<lambda>(sd, sl). update_dashboard ties (deref ?s' (df_ref ?s')) sd sl) cs"
    by (rule Cons.IH) (simp add: ref keep)
  show ?case
    using ih by (simp add: c ref keep update_dashboard_store_result split_beta Let_def)
qed

theorem base_dataset_unchanged_witness:
  "deref (snd (calls keep_order [(Some [''Desktop''], None), (None, Some [''UK''])] example_store)) 0 = example_df
   \<and> fst (calls keep_order [(Some [''Desktop''], None), (None, Some [''UK''])] example_store)
       = [update_dashboard keep_order example_df (Some [''Desktop'']) None,
          update_dashboard keep_order example_df None (Some [''UK''])]"
  using base_dataset_unchanged [where ties = keep_order and s = example_store
      and cs = "[(Some [''Desktop''], None), (None, Some [''UK''])]"]
  by (simp add: example_store_def deref_def)

text \<open>
  C9. In each of the three outputs the keys are pairwise distinct: no date twice in the
  trend, no page twice in the top pages, no device twice in the device share.
\<close>

theorem output_keys_distinct:
  "distinct (map fst (trend ties df sd sl))
   \<and> distinct (map fst (topPages ties df sd sl))
   \<and> distinct (map fst (deviceShare ties df sd sl))"
  by (simp add: update_dashboard_outputs groupby_sum_distinct distinct_keys_sort_values_desc)

text \<open>
  C10. With a non-empty list \<open>D\<close> of selected devices, every key of the device share is
  in \<open>D\<close>; with a non-empty list \<open>L\<close> of selected locations, the location of every
  surviving record is in \<open>L\<close>.
\<close>

theorem outputs_within_allowed:
  "(sd = Some D \<and> D \<noteq> [] \<longrightarrow> fst ` set (deviceShare ties df sd sl) \<subseteq> set D)
   \<and> (sl = Some L \<and> L \<noteq> [] \<longrightarrow> location ` set (filtered_df df sd sl) \<subseteq> set L)"
proof -
  have "set (map fst (deviceShare ties df sd sl)) = device ` set (spec_selection df sd sl)"
    by (simp only: update_dashboard_outputs groupby_sum_key_set)
  then have keys: "fst ` set (deviceShare ties df sd sl) = device ` set (spec_selection df sd sl)"
    by simp
  have dev: "device ` set (spec_selection df (Some D) sl) \<subseteq> set D" if "D \<noteq> []"
    using that by (auto simp: spec_selection_def spec_allowed_def)
  have loc: "location ` set (spec_selection df sd (Some L)) \<subseteq> set L" if "L \<noteq> []"
    using that by (auto simp: spec_selection_def spec_allowed_def)
  show ?thesis
  proof (intro conjI impI)
    assume a: "sd = Some D \<and> D \<noteq> []"
    have "fst ` set (deviceShare ties df sd sl) = device ` set (spec_selection df (Some D) sl)"
      unfolding keys using a by simp
    also have "\<dots> \<subseteq> set D"
      using a by (simp add: dev)
    finally show "fst ` set (deviceShare ties df sd sl) \<subseteq> set D" .
  next
    assume a: "sl = Some L \<and> L \<noteq> []"
    have "location ` set (filtered_df df sd sl) = location ` set (spec_selection df sd (Some L))"
      unfolding filtered_df_spec using a by simp
    also have "\<dots> \<subseteq> set L"
      using a by (simp add: loc)
    finally show "location ` set (filtered_df df sd sl) \<subseteq> set L" .
  qed
qed

theorem outputs_within_allowed_witness:
  "fst ` set (deviceShare keep_order example_df (Some [''Desktop'']) (Some [''UK''])) \<subseteq> set [''Desktop'']
   \<and> location ` set (filtered_df example_df (Some [''Desktop'']) (Some [''UK''])) \<subseteq> set [''UK'']"
  using outputs_within_allowed [where ties = keep_order and df = example_df
      and sd = "Some [''Desktop'']" and D = "[''Desktop'']" and sl = "Some [''UK'']" and L = "[''UK'']"]
  by simp

end
